theory Spec2Isabelle
  imports Main "HOL-Library.Sublist"
begin

section \<open>Strings and arrays of the script\<close>

text \<open>
  A JavaScript string is modelled as a \<^typ>\<open>string\<close>, one \<^typ>\<open>char\<close> per code unit
  (code units below 256). The functions below are the String and Array methods the
  script calls, each for the arguments it is called with.
\<close>

type_synonym path = string

text \<open>\<^verbatim>\<open>s.startsWith(p)\<close> and \<^verbatim>\<open>s.endsWith(p)\<close>.\<close>

definition startsWith :: "string \<Rightarrow> string \<Rightarrow> bool" where
  "startsWith s p = (take (length p) s = p)"

definition endsWith :: "string \<Rightarrow> string \<Rightarrow> bool" where
  "endsWith s p = (length p \<le> length s \<and> drop (length s - length p) s = p)"

text \<open>\<^verbatim>\<open>s.includes(p)\<close>: some position of \<open>s\<close> starts an occurrence of \<open>p\<close>.\<close>

fun includes_str :: "string \<Rightarrow> string \<Rightarrow> bool" where
  "includes_str [] p = (p = [])"
| "includes_str (c # s) p = (startsWith (c # s) p \<or> includes_str s p)"

text \<open>
  \<^verbatim>\<open>s.split("\n")\<close>, for a separator of one code unit: the pieces between the
  separators, so that the empty string gives one empty piece.
\<close>

fun split_str :: "char \<Rightarrow> string \<Rightarrow> string list" where
  "split_str sep [] = [[]]"
| "split_str sep (c # s) =
     (if c = sep then [] # split_str sep s
      else (c # hd (split_str sep s)) # tl (split_str sep s))"

text \<open>\<^verbatim>\<open>lines.join(sep)\<close>.\<close>

fun join :: "string \<Rightarrow> string list \<Rightarrow> string" where
  "join sep [] = []"
| "join sep [l] = l"
| "join sep (l # m # ls) = l @ sep @ join sep (m # ls)"

text \<open>
  \<^verbatim>\<open>xs.slice(start, stop)\<close> with the relative indices of ECMAScript: a negative index
  counts from the end, both are clamped to the array, and an empty range gives \<open>[]\<close>.
\<close>

definition slice :: "'a list \<Rightarrow> int \<Rightarrow> int \<Rightarrow> 'a list" where
  "slice xs start stop =
     (let len = int (length xs);
          k = (if start < 0 then max (len + start) 0 else min start len);
          final = (if stop < 0 then max (len + stop) 0 else min stop len)
      in take (nat (final - k)) (drop (nat k) xs))"

text \<open>
  \<^verbatim>\<open>s.trim()\<close> removes white space and line terminators from both ends; in the
  modelled range these are TAB, LF, VT, FF, CR, SPACE and NBSP.
\<close>

definition is_space :: "char \<Rightarrow> bool" where
  "is_space c = (c \<in> {CHR 0x09, CHR 0x0A, CHR 0x0B, CHR 0x0C, CHR 0x0D, CHR 0x20, CHR 0xA0})"

definition trim :: "string \<Rightarrow> string" where
  "trim s = rev (dropWhile is_space (rev (dropWhile is_space s)))"

section \<open>The file system, the backend and what a run does\<close>

text \<open>
  A directory tree. A file has its text and whether it can be read and written; a
  directory lists its entries by name; \<open>Unlistable\<close> is a directory whose listing fails
  and \<open>Unstattable\<close> an entry whose status lookup fails. Cyclic links are outside the
  model.
\<close>

datatype node =
    File (content: string) (readable: bool) (writable: bool)
  | Dir (entries: "(string \<times> node) list")
  | Unlistable
  | Unstattable

datatype js_error = ReadError | BackendError | WriteError

text \<open>
  The effects of a run, in the order a depth-first schedule issues them. The callbacks of
  the script run in an order the host chooses; a file is read and written only by the one
  invocation for its path, so the final tree and the events of each invocation do not
  depend on that order. \<open>GenerateContent p prompt\<close> is the backend request made for the
  file at \<open>p\<close>: the path tags the request and is not part of the payload.
\<close>

datatype event =
    Readdir path
  | Stat path
  | ReadFile path
  | GenerateContent path string
  | WriteFile path string
  | ErrorReadingDirectory path
  | ErrorReadingStats path
  | WarnTooShort
  | DocumentationAdded path
  | ErrorProcessing path js_error

text \<open>
  The backend: the response text for a prompt, or \<open>None\<close> when the request or the
  extraction of the text raises.
\<close>

type_synonym backend = "string \<Rightarrow> string option"

text \<open>
  \<^verbatim>\<open>fs.readFileSync(p, "utf-8")\<close> and \<^verbatim>\<open>fs.writeFileSync(p, text, "utf-8")\<close> on the
  node at \<open>p\<close>. A write that fails is refused when the file is opened and leaves the node
  as it was.
\<close>

definition readFileSync :: "node \<Rightarrow> js_error + string" where
  "readFileSync nd =
     (case nd of File c r w \<Rightarrow> if r then Inr c else Inl ReadError
      | _ \<Rightarrow> Inl ReadError)"

definition writeFileSync :: "node \<Rightarrow> string \<Rightarrow> js_error + node" where
  "writeFileSync nd text =
     (case nd of File c r w \<Rightarrow> if w then Inr (File text r w) else Inl WriteError
      | _ \<Rightarrow> Inl WriteError)"

text \<open>The prompt: the fixed instruction, an empty line, and the file's text.\<close>

definition mkPrompt :: "string \<Rightarrow> string" where
  "mkPrompt fileContent =
     ''Write clear, professional comments for the following code:\<newline>\<newline>'' @ fileContent"

subsection \<open>Ignore configuration (index.js, lines 10 to 22)\<close>

text \<open>
  The argument is what \<^verbatim>\<open>.ignoreconfig\<close> names in the working directory, if anything.
  \<^verbatim>\<open>fs.existsSync\<close> is false for a missing path and for one whose status lookup fails;
  the read is outside any handler, so its failure is the result.
\<close>

definition existsSync :: "node option \<Rightarrow> bool" where
  "existsSync cfg = (case cfg of None \<Rightarrow> False | Some Unstattable \<Rightarrow> False | Some _ \<Rightarrow> True)"

definition ignorePatterns :: "node option \<Rightarrow> js_error + string list" where
  "ignorePatterns cfg =
     (case cfg of
        None \<Rightarrow> Inr []
      | Some nd \<Rightarrow>
          if existsSync cfg then
            (case readFileSync nd of
               Inl e \<Rightarrow> Inl e
             | Inr text \<Rightarrow>
                 Inr (filter (\<lambda>line. line \<noteq> [] \<and> \<not> startsWith line ''#'')
                        (map trim (split_str (CHR ''\<newline>'') text))))
          else Inr [])"

text \<open>
  The list \<^verbatim>\<open>ignorePatterns\<close> is assigned once, before the walk starts, and only read
  afterwards; the functions that read it take it as the argument \<open>pats\<close>.
\<close>

definition shouldIgnore :: "string list \<Rightarrow> path \<Rightarrow> bool" where
  "shouldIgnore pats filePath = list_ex (\<lambda>pattern. includes_str filePath pattern) pats"

subsection \<open>Annotator of index.js (lines 47 to 73)\<close>

text \<open>
  The body of the \<^verbatim>\<open>try\<close> block: the outcome (\<open>Inl\<close> the error thrown), the node
  at the path afterwards, and the events issued up to there.
\<close>

definition addDocumentation_try ::
  "backend \<Rightarrow> path \<Rightarrow> node \<Rightarrow> (js_error + unit) \<times> node \<times> event list" where
  "addDocumentation_try model filePath nd =
     (case readFileSync nd of
        Inl e \<Rightarrow> (Inl e, nd, [ReadFile filePath])
      | Inr fileContent \<Rightarrow>
          let prompt = mkPrompt fileContent;
              evs1 = [ReadFile filePath, GenerateContent filePath prompt]
          in (case model prompt of
                None \<Rightarrow> (Inl BackendError, nd, evs1)
              | Some aiGeneratedDocs \<Rightarrow>
                  let docLines = split_str (CHR ''\<newline>'') aiGeneratedDocs;
                      (docLines', warn) =
                        (if length docLines > 2
                         then (slice docLines 1 (int (length docLines) - 2), [])
                         else (docLines, [WarnTooShort]));
                      evs2 = evs1 @ warn;
                      updatedContent = join ''\<newline>'' docLines';
                      evs3 = evs2 @ [WriteFile filePath updatedContent]
                  in (case writeFileSync nd updatedContent of
                        Inl e \<Rightarrow> (Inl e, nd, evs3)
                      | Inr nd' \<Rightarrow> (Inr (), nd', evs3 @ [DocumentationAdded filePath]))))"

text \<open>The \<^verbatim>\<open>catch\<close> clause logs the error with the path and returns normally.\<close>

definition addDocumentation :: "backend \<Rightarrow> path \<Rightarrow> node \<Rightarrow> node \<times> event list" where
  "addDocumentation model filePath nd =
     (case addDocumentation_try model filePath nd of
        (Inl error, nd', evs) \<Rightarrow> (nd', evs @ [ErrorProcessing filePath error])
      | (Inr _, nd', evs) \<Rightarrow> (nd', evs))"

subsection \<open>Annotator of tests/Test.js (lines 91 to 103)\<close>

definition addDocumentation_Test_try ::
  "backend \<Rightarrow> path \<Rightarrow> node \<Rightarrow> (js_error + unit) \<times> node \<times> event list" where
  "addDocumentation_Test_try model filePath nd =
     (case readFileSync nd of
        Inl e \<Rightarrow> (Inl e, nd, [ReadFile filePath])
      | Inr fileContent \<Rightarrow>
          let prompt = mkPrompt fileContent;
              evs1 = [ReadFile filePath, GenerateContent filePath prompt]
          in (case model prompt of
                None \<Rightarrow> (Inl BackendError, nd, evs1)
              | Some aiGeneratedDocs \<Rightarrow>
                  let updatedContent =
                        ''/*\<newline>'' @ aiGeneratedDocs @ ''\<newline>*/\<newline>\<newline>'' @ fileContent;
                      evs2 = evs1 @ [WriteFile filePath updatedContent]
                  in (case writeFileSync nd updatedContent of
                        Inl e \<Rightarrow> (Inl e, nd, evs2)
                      | Inr nd' \<Rightarrow> (Inr (), nd', evs2 @ [DocumentationAdded filePath]))))"

definition addDocumentation_Test :: "backend \<Rightarrow> path \<Rightarrow> node \<Rightarrow> node \<times> event list" where
  "addDocumentation_Test model filePath nd =
     (case addDocumentation_Test_try model filePath nd of
        (Inl error, nd', evs) \<Rightarrow> (nd', evs @ [ErrorProcessing filePath error])
      | (Inr _, nd', evs) \<Rightarrow> (nd', evs))"

subsection \<open>Annotator of unnamed/part_000 (lines 48 to 60)\<close>

definition addDocumentation_part_000_try ::
  "backend \<Rightarrow> path \<Rightarrow> node \<Rightarrow> (js_error + unit) \<times> node \<times> event list" where
  "addDocumentation_part_000_try model filePath nd =
     (case readFileSync nd of
        Inl e \<Rightarrow> (Inl e, nd, [ReadFile filePath])
      | Inr fileContent \<Rightarrow>
          let prompt = mkPrompt fileContent;
              evs1 = [ReadFile filePath, GenerateContent filePath prompt]
          in (case model prompt of
                None \<Rightarrow> (Inl BackendError, nd, evs1)
              | Some aiGeneratedDocs \<Rightarrow>
                  let updatedContent =
                        ''/*\<newline>'' @ aiGeneratedDocs @ ''\<newline>*/\<newline>\<newline>'' @ fileContent;
                      evs2 = evs1 @ [WriteFile filePath updatedContent]
                  in (case writeFileSync nd updatedContent of
                        Inl e \<Rightarrow> (Inl e, nd, evs2)
                      | Inr nd' \<Rightarrow> (Inr (), nd', evs2 @ [DocumentationAdded filePath]))))"

definition addDocumentation_part_000 :: "backend \<Rightarrow> path \<Rightarrow> node \<Rightarrow> node \<times> event list" where
  "addDocumentation_part_000 model filePath nd =
     (case addDocumentation_part_000_try model filePath nd of
        (Inl error, nd', evs) \<Rightarrow> (nd', evs @ [ErrorProcessing filePath error])
      | (Inr _, nd', evs) \<Rightarrow> (nd', evs))"

subsection \<open>Tree walker of index.js (lines 24 to 45)\<close>

text \<open>
  \<^verbatim>\<open>path.join(dir, file)\<close> for the arguments the walker gives it: \<open>dir\<close> is the
  working directory or an earlier result (absolute and normalised), \<open>file\<close> a name that
  \<^verbatim>\<open>fs.readdir\<close> returned. The root directory already ends in the separator.
\<close>

definition path_join :: "path \<Rightarrow> string \<Rightarrow> path" where
  "path_join dir file = (if dir = ''/'' then dir @ file else dir @ ''/'' @ file)"

text \<open>
  \<open>processFilesRecursively\<close> lists the directory, \<open>forEach\<close> runs the callback on each
  name of the listing, and \<open>callback\<close> is the arrow function with the status lookup and
  its handler. Each returns the tree below it after the run and the events issued.
\<close>

function processFilesRecursively ::
    "string list \<Rightarrow> backend \<Rightarrow> path \<Rightarrow> node \<Rightarrow> node \<times> event list"
  and forEach ::
    "string list \<Rightarrow> backend \<Rightarrow> path \<Rightarrow> (string \<times> node) list \<Rightarrow> (string \<times> node) list \<times> event list"
  and callback ::
    "string list \<Rightarrow> backend \<Rightarrow> path \<Rightarrow> string \<Rightarrow> node \<Rightarrow> node \<times> event list"
where
  "processFilesRecursively pats model dir nd =
     (case nd of
        Dir files \<Rightarrow>
          (case forEach pats model dir files of
             (files', evs) \<Rightarrow> (Dir files', Readdir dir # evs))
      | _ \<Rightarrow> (nd, [Readdir dir, ErrorReadingDirectory dir]))"
| "forEach pats model dir [] = ([], [])"
| "forEach pats model dir ((file, child) # rest) =
     (case callback pats model dir file child of
        (child', evs) \<Rightarrow>
          (case forEach pats model dir rest of
             (rest', evs_rest) \<Rightarrow> ((file, child') # rest', evs @ evs_rest)))"
| "callback pats model dir file child =
     (let filePath = path_join dir file
      in if shouldIgnore pats filePath then (child, [])
         else (case child of
                 Unstattable \<Rightarrow> (child, [Stat filePath, ErrorReadingStats filePath])
               | File c r w \<Rightarrow>
                   if endsWith file ''.js'' \<or> endsWith file ''.ts''
                   then (case addDocumentation model filePath child of
                           (child', evs) \<Rightarrow> (child', Stat filePath # evs))
                   else (child, [Stat filePath])
               | _ \<Rightarrow>
                   (case processFilesRecursively pats model filePath child of
                      (child', evs) \<Rightarrow> (child', Stat filePath # evs))))"
  by pat_completeness auto
termination
  by (relation "measure (\<lambda>x. case x of
         Inl (_, _, _, nd) \<Rightarrow> 2 * size nd
       | Inr (Inl (_, _, _, es)) \<Rightarrow> 2 * size_list (size_prod (\<lambda>_. 0) size) es
       | Inr (Inr (_, _, _, _, child)) \<Rightarrow> 2 * size child + 1)") auto

section \<open>Notions used to state the properties\<close>

text \<open>The lines numbered \<open>i\<close> through \<open>j\<close> of a list of lines, counting from one.\<close>

definition line_range :: "string list \<Rightarrow> nat \<Rightarrow> nat \<Rightarrow> string list" where
  "line_range ls i j = map (\<lambda>k. ls ! (k - 1)) [i ..< Suc j]"

text \<open>
  The path an event is about, the paths submitted to the backend (one per request) and
  the paths the annotator was invoked on: an invocation starts by reading the file, and
  nothing else reads a file.
\<close>

fun path_of :: "event \<Rightarrow> path option" where
  "path_of (Readdir p) = Some p"
| "path_of (Stat p) = Some p"
| "path_of (ReadFile p) = Some p"
| "path_of (GenerateContent p prompt) = Some p"
| "path_of (WriteFile p text) = Some p"
| "path_of (ErrorReadingDirectory p) = Some p"
| "path_of (ErrorReadingStats p) = Some p"
| "path_of WarnTooShort = None"
| "path_of (DocumentationAdded p) = Some p"
| "path_of (ErrorProcessing p e) = Some p"

fun request_of :: "event \<Rightarrow> path list" where
  "request_of (GenerateContent p prompt) = [p]"
| "request_of _ = []"

definition request_paths :: "event list \<Rightarrow> path list" where
  "request_paths evs = concat (map request_of evs)"

fun invocation_of :: "event \<Rightarrow> path list" where
  "invocation_of (ReadFile p) = [p]"
| "invocation_of _ = []"

definition invocation_paths :: "event list \<Rightarrow> path list" where
  "invocation_paths evs = concat (map invocation_of evs)"

text \<open>
  A tree as a file system presents it: in each directory the names are distinct, not
  empty, and without the separator.
\<close>

fun wf_node :: "node \<Rightarrow> bool" where
  "wf_node (Dir files) =
     (distinct (map fst files) \<and>
      list_all (\<lambda>(name, child). name \<noteq> [] \<and> CHR ''/'' \<notin> set name \<and> wf_node child) files)"
| "wf_node _ = True"

text \<open>
  A directory path with the separator after it, and the first name of a path below a
  directory.
\<close>

definition with_sep :: "path \<Rightarrow> path" where
  "with_sep dir = (if dir = ''/'' then dir else dir @ ''/'')"

definition first_name :: "path \<Rightarrow> path \<Rightarrow> string" where
  "first_name dir p = takeWhile (\<lambda>c. c \<noteq> CHR ''/'') (drop (length (with_sep dir)) p)"

section \<open>Splitting, joining and slicing\<close>

lemma split_str_not_Nil: "split_str sep s \<noteq> []"
  by (induction s) auto

lemma join_Cons_Cons: "join sep ((c # l) # ls) = c # join sep (l # ls)"
  by (cases ls) auto

lemma join_split_str: "join [sep] (split_str sep s) = s"
proof (induction s)
  case Nil
  then show ?case by simp
next
  case (Cons c s)
  obtain l ls where r: "split_str sep s = l # ls"
    using split_str_not_Nil [of sep s] by (cases "split_str sep s") auto
  show ?case
  proof (cases "c = sep")
    case True
    with Cons r show ?thesis by simp
  next
    case False
    with Cons r show ?thesis by (simp add: join_Cons_Cons)
  qed
qed

lemma split_str_no_sep: "l \<in> set (split_str sep s) \<Longrightarrow> sep \<notin> set l"
proof (induction s arbitrary: l)
  case Nil
  then show ?case by simp
next
  case (Cons c s)
  obtain m ms where r: "split_str sep s = m # ms"
    using split_str_not_Nil [of sep s] by (cases "split_str sep s") auto
  with Cons show ?case by (auto split: if_splits)
qed

lemma slice_trim_lines:
  assumes "2 < length xs"
  shows "slice xs 1 (int (length xs) - 2) = take (length xs - 3) (drop 1 xs)"
proof -
  have "nat (int (length xs) - 2 - 1) = length xs - 3" by simp
  with assms show ?thesis by (simp add: slice_def Let_def min_def)
qed

lemma take_drop_nth: "j \<le> length xs \<Longrightarrow> take (j - i) (drop i xs) = map (\<lambda>k. xs ! k) [i ..< j]"
  by (simp add: list_eq_iff_nth_eq)

lemma line_range_shift: "line_range xs (Suc i) j = map (\<lambda>k. xs ! k) [i ..< j]"
proof -
  have "[Suc i ..< Suc j] = map Suc [i ..< j]" by (simp add: map_Suc_upt)
  then show ?thesis by (simp add: line_range_def comp_def)
qed

lemma slice_line_range:
  assumes "2 < length xs"
  shows "slice xs 1 (int (length xs) - 2) = line_range xs 2 (length xs - 2)"
proof -
  have "length xs - 3 = (length xs - 2) - 1" by simp
  then have "take (length xs - 3) (drop 1 xs) = map (\<lambda>k. xs ! k) [1 ..< length xs - 2]"
    using take_drop_nth [of "length xs - 2" xs 1] by simp
  moreover have "line_range xs 2 (length xs - 2) = map (\<lambda>k. xs ! k) [1 ..< length xs - 2]"
    using line_range_shift [of xs 1 "length xs - 2"] by (simp add: numeral_2_eq_2)
  ultimately show ?thesis using assms by (simp add: slice_trim_lines)
qed

lemma split_str_single: "sep \<notin> set l \<Longrightarrow> split_str sep l = [l]"
  by (induction l) auto

lemma split_str_append: "sep \<notin> set l \<Longrightarrow> split_str sep (l @ sep # r) = l # split_str sep r"
  by (induction l) auto

lemma split_str_join:
  "ls \<noteq> [] \<Longrightarrow> \<forall>l\<in>set ls. sep \<notin> set l \<Longrightarrow> split_str sep (join [sep] ls) = ls"
proof (induction ls)
  case Nil
  then show ?case by simp
next
  case (Cons l ls)
  show ?case
  proof (cases ls)
    case Nil
    with Cons.prems show ?thesis by (simp add: split_str_single)
  next
    case (Cons m ms)
    with Cons.IH Cons.prems show ?thesis by (simp add: split_str_append)
  qed
qed

section \<open>The annotators\<close>

text \<open>
  C1. Replace policy (index.js): when the file can be read and written and the backend
  answers with more than two lines, the file's new text is the response's lines 2 through
  (total minus 2) joined by newlines; the first line, the last two lines and the old text
  are gone.
\<close>

theorem replace_policy:
  assumes "model (mkPrompt c) = Some R"
    and "2 < length (split_str (CHR ''\<newline>'') R)"
  shows "addDocumentation model p (File c True True) =
     (File (join ''\<newline>'' (line_range (split_str (CHR ''\<newline>'') R) 2
              (length (split_str (CHR ''\<newline>'') R) - 2))) True True,
      [ReadFile p, GenerateContent p (mkPrompt c),
       WriteFile p (join ''\<newline>'' (line_range (split_str (CHR ''\<newline>'') R) 2
              (length (split_str (CHR ''\<newline>'') R) - 2))),
       DocumentationAdded p])"
  using assms
  by (simp add: addDocumentation_def addDocumentation_try_def readFileSync_def
      writeFileSync_def slice_line_range Let_def)

theorem replace_policy_witness:
  "2 < length (split_str (CHR ''\<newline>'') ''l1\<newline>l2\<newline>l3\<newline>l4\<newline>l5'') \<and>
   addDocumentation (\<lambda>_. Some ''l1\<newline>l2\<newline>l3\<newline>l4\<newline>l5'') ''/w/a.js''
       (File ''const a = 1;'' True True) =
     (File ''l2\<newline>l3'' True True,
      [ReadFile ''/w/a.js'', GenerateContent ''/w/a.js'' (mkPrompt ''const a = 1;''),
       WriteFile ''/w/a.js'' ''l2\<newline>l3'', DocumentationAdded ''/w/a.js''])"
  using replace_policy [of "\<lambda>_. Some ''l1\<newline>l2\<newline>l3\<newline>l4\<newline>l5''" "''const a = 1;''"
      "''l1\<newline>l2\<newline>l3\<newline>l4\<newline>l5''" "''/w/a.js''"]
  by (simp add: line_range_def upt_rec)

text \<open>
  C5, as the code has it. With a response of two or fewer lines the warning is logged, the
  trimming is skipped, and the file is overwritten with the whole response.
\<close>

theorem short_response_overwrites:
  assumes "model (mkPrompt c) = Some R"
    and "length (split_str (CHR ''\<newline>'') R) \<le> 2"
  shows "addDocumentation model p (File c True True) =
     (File R True True,
      [ReadFile p, GenerateContent p (mkPrompt c), WarnTooShort, WriteFile p R,
       DocumentationAdded p])"
  using assms join_split_str [of "CHR ''\<newline>''" R]
  by (simp add: addDocumentation_def addDocumentation_try_def readFileSync_def
      writeFileSync_def Let_def)

theorem short_response_overwrites_witness:
  "length (split_str (CHR ''\<newline>'') ''l1\<newline>l2'') \<le> 2 \<and>
   addDocumentation (\<lambda>_. Some ''l1\<newline>l2'') ''/w/a.js'' (File ''const a = 1;'' True True) =
     (File ''l1\<newline>l2'' True True,
      [ReadFile ''/w/a.js'', GenerateContent ''/w/a.js'' (mkPrompt ''const a = 1;''),
       WarnTooShort, WriteFile ''/w/a.js'' ''l1\<newline>l2'', DocumentationAdded ''/w/a.js''])"
  using short_response_overwrites [of "\<lambda>_. Some ''l1\<newline>l2''" "''const a = 1;''"
      "''l1\<newline>l2''" "''/w/a.js''"]
  by simp

text \<open>
  The file does not keep its text: a response of exactly two lines replaces
  \<^verbatim>\<open>const a = 1;\<close>.
\<close>

theorem short_response_unchanged_counterexample:
  "length (split_str (CHR ''\<newline>'') ''l1\<newline>l2'') = 2 \<and>
   content (fst (addDocumentation (\<lambda>_. Some ''l1\<newline>l2'') ''/w/a.js''
       (File ''const a = 1;'' True True))) \<noteq> ''const a = 1;''"
  by (simp add: addDocumentation_def addDocumentation_try_def readFileSync_def
      writeFileSync_def Let_def)

text \<open>
  C10. Replace policy (index.js): a response of exactly three lines leaves nothing between
  the first line and the last two, so the empty string is written and no warning is logged.
\<close>

theorem three_lines_erase:
  assumes "model (mkPrompt c) = Some R"
    and "length (split_str (CHR ''\<newline>'') R) = 3"
  shows "addDocumentation model p (File c True True) =
     (File [] True True,
      [ReadFile p, GenerateContent p (mkPrompt c), WriteFile p [], DocumentationAdded p])"
  using assms
  by (simp add: addDocumentation_def addDocumentation_try_def readFileSync_def
      writeFileSync_def Let_def slice_def)

theorem three_lines_erase_witness:
  "length (split_str (CHR ''\<newline>'') ''l1\<newline>l2\<newline>l3'') = 3 \<and>
   addDocumentation (\<lambda>_. Some ''l1\<newline>l2\<newline>l3'') ''/w/a.js'' (File ''const a = 1;'' True True) =
     (File [] True True,
      [ReadFile ''/w/a.js'', GenerateContent ''/w/a.js'' (mkPrompt ''const a = 1;''),
       WriteFile ''/w/a.js'' [], DocumentationAdded ''/w/a.js''])"
  using three_lines_erase [of "\<lambda>_. Some ''l1\<newline>l2\<newline>l3''" "''const a = 1;''"
      "''l1\<newline>l2\<newline>l3''" "''/w/a.js''"]
  by simp

text \<open>
  C2. Prepend policy (tests/Test.js and unnamed/part_000): the text written is the response
  inside a block comment, an empty line, and the original text, which is a suffix of the
  result.
\<close>

theorem prepend_policy:
  assumes "model (mkPrompt C) = Some R"
  shows "addDocumentation_Test model p (File C True True) =
     (File (''/*\<newline>'' @ R @ ''\<newline>*/\<newline>\<newline>'' @ C) True True,
      [ReadFile p, GenerateContent p (mkPrompt C),
       WriteFile p (''/*\<newline>'' @ R @ ''\<newline>*/\<newline>\<newline>'' @ C), DocumentationAdded p])
   \<and> addDocumentation_part_000 model p (File C True True) =
     (File (''/*\<newline>'' @ R @ ''\<newline>*/\<newline>\<newline>'' @ C) True True,
      [ReadFile p, GenerateContent p (mkPrompt C),
       WriteFile p (''/*\<newline>'' @ R @ ''\<newline>*/\<newline>\<newline>'' @ C), DocumentationAdded p])
   \<and> suffix C (content (fst (addDocumentation_Test model p (File C True True))))
   \<and> suffix C (content (fst (addDocumentation_part_000 model p (File C True True))))"
  using assms
  by (simp add: addDocumentation_Test_def addDocumentation_Test_try_def
      addDocumentation_part_000_def addDocumentation_part_000_try_def
      readFileSync_def writeFileSync_def Let_def suffix_def)

theorem prepend_policy_witness:
  "addDocumentation_Test (\<lambda>_. Some ''Adds one.'') ''/w/a.js'' (File ''const a = 1;'' True True) =
     (File ''/*\<newline>Adds one.\<newline>*/\<newline>\<newline>const a = 1;'' True True,
      [ReadFile ''/w/a.js'', GenerateContent ''/w/a.js'' (mkPrompt ''const a = 1;''),
       WriteFile ''/w/a.js'' ''/*\<newline>Adds one.\<newline>*/\<newline>\<newline>const a = 1;'',
       DocumentationAdded ''/w/a.js''])
   \<and> addDocumentation_part_000 (\<lambda>_. Some ''Adds one.'') ''/w/a.js''
       (File ''const a = 1;'' True True) =
     (File ''/*\<newline>Adds one.\<newline>*/\<newline>\<newline>const a = 1;'' True True,
      [ReadFile ''/w/a.js'', GenerateContent ''/w/a.js'' (mkPrompt ''const a = 1;''),
       WriteFile ''/w/a.js'' ''/*\<newline>Adds one.\<newline>*/\<newline>\<newline>const a = 1;'',
       DocumentationAdded ''/w/a.js''])"
  using prepend_policy [of "\<lambda>_. Some ''Adds one.''" "''const a = 1;''" "''Adds one.''" "''/w/a.js''"]
  by simp

text \<open>
  C9. The annotators of tests/Test.js and unnamed/part_000 agree on every backend, path and
  node: the same node afterwards (so the same text written) and the same events.
\<close>

theorem annotators_equivalent:
  "addDocumentation_Test model filePath nd = addDocumentation_part_000 model filePath nd"
  by (simp add: addDocumentation_Test_def addDocumentation_Test_try_def
      addDocumentation_part_000_def addDocumentation_part_000_try_def)

section \<open>The ignore filter\<close>

lemma startsWith_prefix: "startsWith s p \<longleftrightarrow> prefix p s"
  unfolding startsWith_def
  by (metis append_eq_conv_conj prefix_def take_is_prefix)

lemma includes_str_sublist: "includes_str s p \<longleftrightarrow> sublist p s"
  by (induction s) (auto simp: startsWith_prefix sublist_Cons_right)

text \<open>
  C3. \<open>shouldIgnore\<close> holds of a path exactly when some pattern of the list occurs in it
  as a substring; with no pattern it never holds.
\<close>

theorem shouldIgnore_iff:
  "(shouldIgnore S P \<longleftrightarrow> (\<exists>pattern \<in> set S. \<exists>u v. P = u @ pattern @ v))
   \<and> \<not> shouldIgnore [] P"
  by (auto simp: shouldIgnore_def list_ex_iff includes_str_sublist sublist_def)

theorem shouldIgnore_iff_witness:
  "(\<exists>pattern \<in> set [''node_modules'', ''dist'']. \<exists>u v. ''/w/dist/a.js'' = u @ pattern @ v) \<and>
   \<not> (\<exists>pattern \<in> set [''node_modules'', ''dist'']. \<exists>u v. ''/w/src/a.js'' = u @ pattern @ v)"
proof -
  have "shouldIgnore [''node_modules'', ''dist''] ''/w/dist/a.js''"
    by (simp add: shouldIgnore_def startsWith_def)
  moreover have "\<not> shouldIgnore [''node_modules'', ''dist''] ''/w/src/a.js''"
    by (simp add: shouldIgnore_def startsWith_def)
  ultimately show ?thesis
    using shouldIgnore_iff [of "[''node_modules'', ''dist'']" "''/w/dist/a.js''"]
      shouldIgnore_iff [of "[''node_modules'', ''dist'']" "''/w/src/a.js''"]
    by blast
qed

lemma trim_decomp:
  "\<exists>a b. l = a @ trim l @ b \<and> list_all is_space a \<and> list_all is_space b"
proof -
  define r where "r = dropWhile is_space l"
  have l: "l = takeWhile is_space l @ r" by (simp add: r_def)
  have "rev r = takeWhile is_space (rev r) @ dropWhile is_space (rev r)" by simp
  then have "r = rev (dropWhile is_space (rev r)) @ rev (takeWhile is_space (rev r))"
    by (metis rev_append rev_rev_ident)
  then have r: "r = trim l @ rev (takeWhile is_space (rev r))"
    by (simp add: trim_def r_def)
  have "list_all is_space (takeWhile is_space l)"
    by (simp add: list_all_iff) (meson set_takeWhileD)
  moreover have "list_all is_space (rev (takeWhile is_space (rev r)))"
    by (simp add: list_all_iff) (meson set_takeWhileD)
  ultimately show ?thesis using l r by metis
qed

lemma trim_ends:
  assumes "trim l \<noteq> []"
  shows "\<not> is_space (hd (trim l)) \<and> \<not> is_space (last (trim l))"
proof -
  define r where "r = dropWhile is_space l"
  have t: "trim l = rev (dropWhile is_space (rev r))" by (simp add: trim_def r_def)
  with assms have ne: "dropWhile is_space (rev r) \<noteq> []" by simp
  then have "\<not> is_space (hd (dropWhile is_space (rev r)))" by (rule hd_dropWhile)
  then have last: "\<not> is_space (last (trim l))" using ne by (simp add: t last_rev)
  have "rev r = takeWhile is_space (rev r) @ dropWhile is_space (rev r)" by simp
  then have "r = trim l @ rev (takeWhile is_space (rev r))"
    by (metis rev_append rev_rev_ident t)
  then have "hd r = hd (trim l)" and "r \<noteq> []" using assms by (metis hd_append2, auto)
  moreover have "\<not> is_space (hd r)" using \<open>r \<noteq> []\<close> unfolding r_def by (rule hd_dropWhile)
  ultimately show ?thesis using last by simp
qed

lemma startsWith_hash: "t \<noteq> [] \<Longrightarrow> startsWith t ''#'' \<longleftrightarrow> hd t = CHR ''#''"
  by (cases t) (auto simp: startsWith_def)

text \<open>
  C6. Without a configuration file the pattern list is empty and nothing is raised. For a
  file whose lines are \<open>ls\<close>, the list is the trimmed lines, in order, that are not empty
  and do not start with \<^verbatim>\<open>#\<close>; the trimmed form of a line is the line without the
  white space at its two ends.
\<close>

theorem ignorePatterns_load:
  assumes "ls \<noteq> []" and "\<forall>l\<in>set ls. CHR ''\<newline>'' \<notin> set l"
  shows "ignorePatterns None = Inr []
    \<and> ignorePatterns (Some (File (join ''\<newline>'' ls) True w)) =
        Inr (filter (\<lambda>t. t \<noteq> [] \<and> hd t \<noteq> CHR ''#'') (map trim ls))
    \<and> (\<forall>l\<in>set ls. \<exists>a b. l = a @ trim l @ b \<and> list_all is_space a \<and> list_all is_space b
          \<and> (trim l \<noteq> [] \<longrightarrow> \<not> is_space (hd (trim l)) \<and> \<not> is_space (last (trim l))))"
proof -
  have "split_str (CHR ''\<newline>'') (join ''\<newline>'' ls) = ls"
    using assms by (rule split_str_join)
  moreover have "filter (\<lambda>line. line \<noteq> [] \<and> \<not> startsWith line ''#'') (map trim ls) =
      filter (\<lambda>t. t \<noteq> [] \<and> hd t \<noteq> CHR ''#'') (map trim ls)"
    by (rule filter_cong) (auto simp: startsWith_hash)
  ultimately have "ignorePatterns (Some (File (join ''\<newline>'' ls) True w)) =
        Inr (filter (\<lambda>t. t \<noteq> [] \<and> hd t \<noteq> CHR ''#'') (map trim ls))"
    by (simp add: ignorePatterns_def existsSync_def readFileSync_def)
  moreover have "ignorePatterns None = Inr []"
    by (simp add: ignorePatterns_def existsSync_def)
  ultimately show ?thesis using trim_decomp trim_ends by blast
qed

theorem ignorePatterns_load_witness:
  "[''node_modules'', ''  # build output'', [], '' dist ''] \<noteq> []
   \<and> list_all (\<lambda>l. CHR ''\<newline>'' \<notin> set l)
         [''node_modules'', ''  # build output'', [], '' dist '']
   \<and> ignorePatterns (Some (File ''node_modules\<newline>  # build output\<newline>\<newline> dist '' True True)) =
        Inr [''node_modules'', ''dist'']"
  using ignorePatterns_load [of "[''node_modules'', ''  # build output'', [], '' dist '']" True]
  by (simp add: trim_def is_space_def)

section \<open>The tree walker\<close>

declare processFilesRecursively.simps [simp del] callback.simps [simp del]

lemma addDocumentation_paths:
  "e \<in> set (snd (addDocumentation model p nd)) \<Longrightarrow> path_of e = Some q \<Longrightarrow> q = p"
  by (auto simp: addDocumentation_def addDocumentation_try_def Let_def
      split: sum.splits option.splits prod.splits if_splits)

lemma addDocumentation_requests:
  "request_paths (snd (addDocumentation model p nd)) =
     (case readFileSync nd of Inl e \<Rightarrow> [] | Inr c \<Rightarrow> [p])"
  by (auto simp: addDocumentation_def addDocumentation_try_def Let_def request_paths_def
      split: sum.splits option.splits prod.splits if_splits)

lemma addDocumentation_invocations:
  "invocation_paths (snd (addDocumentation model p nd)) = [p]"
  by (auto simp: addDocumentation_def addDocumentation_try_def Let_def invocation_paths_def
      split: sum.splits option.splits prod.splits if_splits)

lemma forEach_fst:
  "fst (forEach pats model dir es) =
     map (\<lambda>(name, child). (name, fst (callback pats model dir name child))) es"
  by (induction es) (auto split: prod.splits)

lemma forEach_snd:
  "snd (forEach pats model dir es) =
     concat (map (\<lambda>(name, child). snd (callback pats model dir name child)) es)"
  by (induction es) (auto split: prod.splits)

lemma processFilesRecursively_Dir:
  "processFilesRecursively pats model dir (Dir files) =
     (Dir (fst (forEach pats model dir files)), Readdir dir # snd (forEach pats model dir files))"
  by (simp add: processFilesRecursively.simps split: prod.splits)

lemma processFilesRecursively_other:
  "\<forall>files. nd \<noteq> Dir files \<Longrightarrow>
   processFilesRecursively pats model dir nd = (nd, [Readdir dir, ErrorReadingDirectory dir])"
  by (cases nd) (simp_all add: processFilesRecursively.simps)

lemma callback_ignored:
  "shouldIgnore pats (path_join dir name) \<Longrightarrow> callback pats model dir name child = (child, [])"
  by (simp add: callback.simps)

lemma callback_File:
  "\<not> shouldIgnore pats (path_join dir name) \<Longrightarrow>
   callback pats model dir name (File c r w) =
     (if endsWith name ''.js'' \<or> endsWith name ''.ts''
      then (fst (addDocumentation model (path_join dir name) (File c r w)),
            Stat (path_join dir name) # snd (addDocumentation model (path_join dir name) (File c r w)))
      else (File c r w, [Stat (path_join dir name)]))"
  by (simp add: callback.simps Let_def split: prod.splits)

lemma callback_Unstattable:
  "\<not> shouldIgnore pats (path_join dir name) \<Longrightarrow>
   callback pats model dir name Unstattable =
     (Unstattable, [Stat (path_join dir name), ErrorReadingStats (path_join dir name)])"
  by (simp add: callback.simps Let_def)

lemma callback_directory:
  "\<not> shouldIgnore pats (path_join dir name) \<Longrightarrow> child = Dir files \<or> child = Unlistable \<Longrightarrow>
   callback pats model dir name child =
     (fst (processFilesRecursively pats model (path_join dir name) child),
      Stat (path_join dir name) # snd (processFilesRecursively pats model (path_join dir name) child))"
  by (auto simp add: callback.simps Let_def split: prod.splits)

lemma callback_cases:
  obtains (ignored) "shouldIgnore pats (path_join dir name)"
      "callback pats model dir name child = (child, [])"
    | (unstattable) "\<not> shouldIgnore pats (path_join dir name)"
      "callback pats model dir name child =
        (child, [Stat (path_join dir name), ErrorReadingStats (path_join dir name)])"
    | (skipped) c r w where "\<not> shouldIgnore pats (path_join dir name)" "child = File c r w"
      "\<not> (endsWith name ''.js'' \<or> endsWith name ''.ts'')"
      "callback pats model dir name child = (child, [Stat (path_join dir name)])"
    | (annotated) c r w where "\<not> shouldIgnore pats (path_join dir name)" "child = File c r w"
      "endsWith name ''.js'' \<or> endsWith name ''.ts''"
      "callback pats model dir name child =
        (fst (addDocumentation model (path_join dir name) child),
         Stat (path_join dir name) # snd (addDocumentation model (path_join dir name) child))"
    | (directory) "\<not> shouldIgnore pats (path_join dir name)"
      "(\<exists>files. child = Dir files) \<or> child = Unlistable"
      "callback pats model dir name child =
        (fst (processFilesRecursively pats model (path_join dir name) child),
         Stat (path_join dir name) # snd (processFilesRecursively pats model (path_join dir name) child))"
proof (cases "shouldIgnore pats (path_join dir name)")
  case True
  then show ?thesis using callback_ignored ignored by blast
next
  case False
  show ?thesis
  proof (cases child)
    case (File c r w)
    with False show ?thesis using callback_File [OF False, of model c r w] skipped annotated
      by (cases "endsWith name ''.js'' \<or> endsWith name ''.ts''") auto
  next
    case (Dir files)
    with False show ?thesis using callback_directory [OF False, of child files model] directory
      by blast
  next
    case Unlistable
    with False show ?thesis using callback_directory [OF False, of child _ model] directory
      by blast
  next
    case Unstattable
    with False show ?thesis using callback_Unstattable [OF False, of model] unstattable by simp
  qed
qed

lemma events_not_ignored:
  "e \<in> set (snd (processFilesRecursively pats model dir nd)) \<Longrightarrow> path_of e = Some p \<Longrightarrow>
     p = dir \<or> \<not> shouldIgnore pats p"
  "e \<in> set (snd (forEach pats model dir es)) \<Longrightarrow> path_of e = Some p \<Longrightarrow>
     \<not> shouldIgnore pats p"
  "e \<in> set (snd (callback pats model dir name child)) \<Longrightarrow> path_of e = Some p \<Longrightarrow>
     \<not> shouldIgnore pats p"
proof (induction pats model dir nd and pats model dir es and pats model dir name child
    arbitrary: e p and e p and e p rule: processFilesRecursively_forEach_callback.induct)
  case (1 pats model dir nd)
  show ?case
  proof (cases nd)
    case (Dir files)
    with 1 show ?thesis by (auto simp: processFilesRecursively_Dir)
  qed (use 1 in \<open>auto simp: processFilesRecursively_other\<close>)
next
  case (2 pats model dir)
  then show ?case by simp
next
  case (3 pats model dir name child rest)
  from "3.prems" have "e \<in> set (snd (callback pats model dir name child))
      \<or> e \<in> set (snd (forEach pats model dir rest))"
    by (auto split: prod.splits)
  then show ?case
    using "3.IH" "3.prems"(2) by (metis prod.collapse)
next
  case (4 pats model dir name child)
  show ?case
  proof (cases rule: callback_cases [where pats=pats and dir=dir and name=name and model=model and child=child])
    case ignored
    with 4 show ?thesis by simp
  next
    case unstattable
    with 4 show ?thesis by auto
  next
    case (skipped c r w)
    with 4 show ?thesis by auto
  next
    case (annotated c r w)
    with "4.prems" show ?thesis by (auto dest: addDocumentation_paths)
  next
    case directory
    with 4 show ?thesis by fastforce
  qed
qed

lemma endsWith_append: "endsWith name s \<Longrightarrow> endsWith (d @ name) s"
  by (auto simp: endsWith_def)

lemma invocation_names:
  "ReadFile p \<in> set (snd (processFilesRecursively pats model dir nd)) \<Longrightarrow>
     \<exists>d name. p = path_join d name
       \<and> Readdir d \<in> set (snd (processFilesRecursively pats model dir nd))
       \<and> (endsWith name ''.js'' \<or> endsWith name ''.ts'')"
  "ReadFile p \<in> set (snd (forEach pats model dir es)) \<Longrightarrow>
     \<exists>d name. p = path_join d name
       \<and> (d = dir \<or> Readdir d \<in> set (snd (forEach pats model dir es)))
       \<and> (endsWith name ''.js'' \<or> endsWith name ''.ts'')"
  "ReadFile p \<in> set (snd (callback pats model dir name child)) \<Longrightarrow>
     \<exists>d name'. p = path_join d name'
       \<and> (d = dir \<or> Readdir d \<in> set (snd (callback pats model dir name child)))
       \<and> (endsWith name' ''.js'' \<or> endsWith name' ''.ts'')"
proof (induction pats model dir nd and pats model dir es and pats model dir name child
    arbitrary: p and p and p rule: processFilesRecursively_forEach_callback.induct)
  case (1 pats model dir nd)
  show ?case
  proof (cases nd)
    case (Dir files)
    with "1.prems" have "ReadFile p \<in> set (snd (forEach pats model dir files))"
      by (simp add: processFilesRecursively_Dir)
    from "1.IH" [OF Dir this] show ?thesis
      by (auto simp: Dir processFilesRecursively_Dir)
  qed (use 1 in \<open>auto simp: processFilesRecursively_other\<close>)
next
  case (2 pats model dir)
  then show ?case by simp
next
  case (3 pats model dir name child rest)
  obtain child' evs where cb: "callback pats model dir name child = (child', evs)"
    by (cases "callback pats model dir name child")
  obtain rest' evs' where fe: "forEach pats model dir rest = (rest', evs')"
    by (cases "forEach pats model dir rest")
  from "3.prems" cb fe have "ReadFile p \<in> set evs \<or> ReadFile p \<in> set evs'" by auto
  then show ?case
  proof
    assume "ReadFile p \<in> set evs"
    with "3.IH"(1) [of p] cb show ?thesis using fe by auto
  next
    assume "ReadFile p \<in> set evs'"
    with "3.IH"(2) [OF cb [symmetric], of p] fe show ?thesis using cb by auto
  qed
next
  case (4 pats model dir name child)
  show ?case
  proof (cases rule: callback_cases [where pats=pats and dir=dir and name=name and model=model and child=child])
    case ignored
    with 4 show ?thesis by simp
  next
    case unstattable
    with 4 show ?thesis by auto
  next
    case (skipped c r w)
    with 4 show ?thesis by auto
  next
    case (annotated c r w)
    with "4.prems" have "p = path_join dir name"
      by (auto dest: addDocumentation_paths)
    with annotated show ?thesis by blast
  next
    case directory
    with "4.prems" have "ReadFile p \<in> set (snd (processFilesRecursively pats model (path_join dir name) child))"
      by auto
    with "4.IH" directory show ?thesis by (metis list.set_intros(2) snd_conv)
  qed
qed

lemma path_join_with_sep: "path_join dir name = with_sep dir @ name"
  by (simp add: path_join_def with_sep_def)

lemma append_sep_is_root: "dir @ CHR ''/'' # name = ''/'' \<longleftrightarrow> dir = [] \<and> name = []"
  by (cases dir) auto

lemma with_sep_path_join: "name \<noteq> [] \<Longrightarrow> with_sep (path_join dir name) = with_sep dir @ name @ ''/''"
  by (auto simp: path_join_def with_sep_def append_sep_is_root)

lemma prefix_with_sep_path_join: "prefix (with_sep dir) (with_sep (path_join dir name))"
  by (auto simp: path_join_def with_sep_def append_sep_is_root)

text \<open>Where the events of a walk are: at the directory itself or below it.\<close>

lemma events_below:
  "e \<in> set (snd (processFilesRecursively pats model dir nd)) \<Longrightarrow> path_of e = Some p \<Longrightarrow>
     p = dir \<or> prefix (with_sep dir) p"
  "e \<in> set (snd (forEach pats model dir es)) \<Longrightarrow> path_of e = Some p \<Longrightarrow>
     (\<exists>name \<in> fst ` set es. p = path_join dir name \<or> prefix (with_sep (path_join dir name)) p)"
  "e \<in> set (snd (callback pats model dir name child)) \<Longrightarrow> path_of e = Some p \<Longrightarrow>
     p = path_join dir name \<or> prefix (with_sep (path_join dir name)) p"
proof (induction pats model dir nd and pats model dir es and pats model dir name child
    arbitrary: e p and e p and e p rule: processFilesRecursively_forEach_callback.induct)
  case (1 pats model dir nd)
  show ?case
  proof (cases nd)
    case (Dir files)
    show ?thesis
    proof (cases "e = Readdir dir")
      case True
      with "1.prems" show ?thesis by simp
    next
      case False
      with "1.prems" Dir have "e \<in> set (snd (forEach pats model dir files))"
        by (simp add: processFilesRecursively_Dir)
      from "1.IH" [OF Dir this "1.prems"(2)] obtain name where
        "p = path_join dir name \<or> prefix (with_sep (path_join dir name)) p" by blast
      then show ?thesis
        using prefix_with_sep_path_join [of dir name]
        by (auto simp: path_join_with_sep)
    qed
  qed (use 1 in \<open>auto simp: processFilesRecursively_other\<close>)
next
  case (2 pats model dir)
  then show ?case by simp
next
  case (3 pats model dir name child rest)
  from "3.prems" have "e \<in> set (snd (callback pats model dir name child))
      \<or> e \<in> set (snd (forEach pats model dir rest))"
    by (auto split: prod.splits)
  then show ?case
  proof
    assume "e \<in> set (snd (callback pats model dir name child))"
    from "3.IH"(1) [OF this "3.prems"(2)] show ?thesis by auto
  next
    assume "e \<in> set (snd (forEach pats model dir rest))"
    from "3.IH"(2) [OF prod.collapse this "3.prems"(2)] show ?thesis by auto
  qed
next
  case (4 pats model dir name child)
  show ?case
  proof (cases rule: callback_cases [where pats=pats and dir=dir and name=name and model=model and child=child])
    case ignored
    with 4 show ?thesis by simp
  next
    case unstattable
    with 4 show ?thesis by auto
  next
    case (skipped c r w)
    with 4 show ?thesis by auto
  next
    case (annotated c r w)
    with "4.prems" show ?thesis by (auto dest: addDocumentation_paths)
  next
    case directory
    with 4 show ?thesis by fastforce
  qed
qed

lemma first_name_below:
  assumes "name \<noteq> []" and "CHR ''/'' \<notin> set name"
    and "p = path_join dir name \<or> prefix (with_sep (path_join dir name)) p"
  shows "first_name dir p = name"
proof -
  from assms(3) have "\<exists>t. p = with_sep dir @ name @ t \<and> (t = [] \<or> hd t = CHR ''/'')"
  proof
    assume "p = path_join dir name"
    then show ?thesis by (simp add: path_join_with_sep)
  next
    assume "prefix (with_sep (path_join dir name)) p"
    then obtain zs where "p = with_sep dir @ name @ ''/'' @ zs"
      using assms(1) by (auto simp: with_sep_path_join prefix_def)
    then show ?thesis by simp
  qed
  then obtain t where p: "p = with_sep dir @ name @ t" and t: "t = [] \<or> hd t = CHR ''/''"
    by blast
  from t assms(2) have "takeWhile (\<lambda>c. c \<noteq> CHR ''/'') (name @ t) = name"
    by (cases t) (auto simp: takeWhile_append)
  with p show ?thesis by (simp add: first_name_def)
qed

lemma forEach_Cons_snd:
  "snd (forEach pats model dir ((name, child) # rest)) =
     snd (callback pats model dir name child) @ snd (forEach pats model dir rest)"
  by (simp split: prod.splits)

declare forEach.simps(2) [simp del]

lemma distinct_selected:
  assumes sel_path: "\<And>e p. p \<in> set (sel e) \<Longrightarrow> path_of e = Some p"
    and sel_walk: "\<And>p. sel (Readdir p) = []" "\<And>p. sel (Stat p) = []"
      "\<And>p. sel (ErrorReadingDirectory p) = []" "\<And>p. sel (ErrorReadingStats p) = []"
    and sel_annot: "\<And>model p nd. distinct (concat (map sel (snd (addDocumentation model p nd))))"
  shows "wf_node nd \<Longrightarrow>
      distinct (concat (map sel (snd (processFilesRecursively pats model dir nd))))"
    and "distinct (map fst es) \<Longrightarrow>
      list_all (\<lambda>(name, child). name \<noteq> [] \<and> CHR ''/'' \<notin> set name \<and> wf_node child) es \<Longrightarrow>
      distinct (concat (map sel (snd (forEach pats model dir es))))"
    and "name \<noteq> [] \<Longrightarrow> CHR ''/'' \<notin> set name \<Longrightarrow> wf_node child \<Longrightarrow>
      distinct (concat (map sel (snd (callback pats model dir name child))))"
proof (induction pats model dir nd and pats model dir es and pats model dir name child
    rule: processFilesRecursively_forEach_callback.induct)
  case (1 pats model dir nd)
  show ?case
  proof (cases nd)
    case (Dir files)
    with 1 show ?thesis by (simp add: processFilesRecursively_Dir sel_walk)
  qed (simp_all add: processFilesRecursively_other sel_walk)
next
  case (2 pats model dir)
  then show ?case by simp
next
  case (3 pats model dir name child rest)
  let ?here = "snd (callback pats model dir name child)"
  let ?rest = "snd (forEach pats model dir rest)"
  from "3.prems" have name: "name \<noteq> []" "CHR ''/'' \<notin> set name" "wf_node child"
    and fresh: "name \<notin> fst ` set rest" and drest: "distinct (map fst rest)"
    and wrest: "list_all (\<lambda>(name, child). name \<noteq> [] \<and> CHR ''/'' \<notin> set name \<and> wf_node child) rest"
    by auto
  have d1: "distinct (concat (map sel ?here))" using "3.IH"(1) name by simp
  have d2: "distinct (concat (map sel ?rest))"
    using "3.IH"(2) [OF prod.collapse drest wrest] .
  have "set (concat (map sel ?here)) \<inter> set (concat (map sel ?rest)) = {}"
  proof (rule ccontr)
    assume "set (concat (map sel ?here)) \<inter> set (concat (map sel ?rest)) \<noteq> {}"
    then obtain p e1 e2 where e1: "e1 \<in> set ?here" "p \<in> set (sel e1)"
      and e2: "e2 \<in> set ?rest" "p \<in> set (sel e2)" by auto
    from events_below(3) [OF e1(1) sel_path [OF e1(2)]] name
    have "first_name dir p = name" by (intro first_name_below) auto
    moreover from events_below(2) [OF e2(1) sel_path [OF e2(2)]] obtain name' child' where
      n': "(name', child') \<in> set rest"
      "p = path_join dir name' \<or> prefix (with_sep (path_join dir name')) p" by auto
    from n'(1) wrest have "name' \<noteq> []" "CHR ''/'' \<notin> set name'" by (auto simp: list_all_iff)
    with n'(2) have "first_name dir p = name'" by (intro first_name_below) auto
    ultimately show False using fresh n'(1) by force
  qed
  with d1 d2 show ?case by (simp add: forEach_Cons_snd)
next
  case (4 pats model dir name child)
  show ?case
  proof (cases rule: callback_cases [where pats=pats and dir=dir and name=name and model=model and child=child])
    case ignored
    then show ?thesis by simp
  next
    case unstattable
    then show ?thesis by (simp add: sel_walk)
  next
    case (skipped c r w)
    then show ?thesis by (simp add: sel_walk)
  next
    case (annotated c r w)
    then show ?thesis by (simp add: sel_walk sel_annot)
  next
    case directory
    with 4 show ?thesis by (auto simp: sel_walk)
  qed
qed

lemma request_of_path: "p \<in> set (request_of e) \<Longrightarrow> path_of e = Some p"
  by (cases e) auto

lemma invocation_of_path: "p \<in> set (invocation_of e) \<Longrightarrow> path_of e = Some p"
  by (cases e) auto

lemma distinct_request_paths:
  "wf_node nd \<Longrightarrow> distinct (request_paths (snd (processFilesRecursively pats model dir nd)))"
  unfolding request_paths_def
proof (rule distinct_selected(1))
  fix model p nd
  show "distinct (concat (map request_of (snd (addDocumentation model p nd))))"
    using addDocumentation_requests [of model p nd]
    by (simp add: request_paths_def split: sum.splits)
qed (simp_all add: request_of_path)

lemma distinct_invocation_paths:
  "wf_node nd \<Longrightarrow> distinct (invocation_paths (snd (processFilesRecursively pats model dir nd)))"
  unfolding invocation_paths_def
proof (rule distinct_selected(1))
  fix model p nd
  show "distinct (concat (map invocation_of (snd (addDocumentation model p nd))))"
    using addDocumentation_invocations [of model p nd]
    by (simp add: invocation_paths_def)
qed (simp_all add: invocation_of_path)

text \<open>A run over a small tree, used by the examples below.\<close>

lemma example_run:
  "processFilesRecursively [''node_modules''] (\<lambda>prompt. if prompt = mkPrompt ''bad'' then None else Some ''Adds one.'')
     ''/w''
     (Dir [(''a.js'', File ''bad'' True True),
           (''b.js'', File ''const a = 1;'' True True),
           (''node_modules'', Dir [(''c.js'', File ''x'' True True)]),
           (''notes.txt'', File ''y'' True True)]) =
   (Dir [(''a.js'', File ''bad'' True True),
         (''b.js'', File ''Adds one.'' True True),
         (''node_modules'', Dir [(''c.js'', File ''x'' True True)]),
         (''notes.txt'', File ''y'' True True)],
    [Readdir ''/w'',
     Stat ''/w/a.js'', ReadFile ''/w/a.js'', GenerateContent ''/w/a.js'' (mkPrompt ''bad''),
     ErrorProcessing ''/w/a.js'' BackendError,
     Stat ''/w/b.js'', ReadFile ''/w/b.js'', GenerateContent ''/w/b.js'' (mkPrompt ''const a = 1;''),
     WarnTooShort, WriteFile ''/w/b.js'' ''Adds one.'', DocumentationAdded ''/w/b.js'',
     Stat ''/w/notes.txt''])"
  by (simp add: processFilesRecursively.simps forEach.simps callback.simps path_join_def
      shouldIgnore_def startsWith_def endsWith_def addDocumentation_def addDocumentation_try_def
      readFileSync_def writeFileSync_def mkPrompt_def Let_def)

text \<open>
  C4. An invocation of the annotator shows as its \<open>ReadFile\<close> event. In a run, every path
  the annotator is invoked on is not ignored and is the join of a listed directory and a
  name ending in \<^verbatim>\<open>.js\<close> or \<^verbatim>\<open>.ts\<close>; every directory listed below the start is not
  ignored; for an ignored entry the callback does nothing at all, and for a file with
  another suffix it never invokes the annotator.
\<close>

theorem walker_filters:
  "(ReadFile p \<in> set (snd (processFilesRecursively pats model dir nd)) \<longrightarrow>
      \<not> shouldIgnore pats p \<and>
      (\<exists>d name. p = path_join d name
         \<and> Readdir d \<in> set (snd (processFilesRecursively pats model dir nd))
         \<and> (endsWith name ''.js'' \<or> endsWith name ''.ts'')))
   \<and> (Readdir p \<in> set (snd (processFilesRecursively pats model dir nd)) \<longrightarrow>
      p = dir \<or> \<not> shouldIgnore pats p)
   \<and> (shouldIgnore pats (path_join dir name) \<longrightarrow>
      callback pats model dir name child = (child, []))
   \<and> (\<not> endsWith name ''.js'' \<and> \<not> endsWith name ''.ts'' \<longrightarrow>
      ReadFile q \<notin> set (snd (callback pats model dir name (File c r w))))"
proof (intro conjI impI)
  assume r: "ReadFile p \<in> set (snd (processFilesRecursively pats model dir nd))"
  from invocation_names(1) [OF r]
  show "\<exists>d name. p = path_join d name
         \<and> Readdir d \<in> set (snd (processFilesRecursively pats model dir nd))
         \<and> (endsWith name ''.js'' \<or> endsWith name ''.ts'')" .
  from events_not_ignored(1) [OF r, of p] have "p = dir \<or> \<not> shouldIgnore pats p" by simp
  moreover have "\<not> shouldIgnore pats p" if "p = dir"
  proof (cases nd)
    case (Dir files)
    with r that have "ReadFile p \<in> set (snd (forEach pats model dir files))"
      by (simp add: processFilesRecursively_Dir)
    from events_not_ignored(2) [OF this, of p] show ?thesis by simp
  qed (use r in \<open>auto simp: processFilesRecursively_other\<close>)
  ultimately show "\<not> shouldIgnore pats p" by blast
next
  assume "Readdir p \<in> set (snd (processFilesRecursively pats model dir nd))"
  from events_not_ignored(1) [OF this, of p] show "p = dir \<or> \<not> shouldIgnore pats p" by simp
next
  assume "shouldIgnore pats (path_join dir name)"
  then show "callback pats model dir name child = (child, [])" by (rule callback_ignored)
next
  assume "\<not> endsWith name ''.js'' \<and> \<not> endsWith name ''.ts''"
  then show "ReadFile q \<notin> set (snd (callback pats model dir name (File c r w)))"
    by (cases "shouldIgnore pats (path_join dir name)") (simp_all add: callback_ignored callback_File)
qed

theorem walker_filters_witness:
  "ReadFile ''/w/b.js'' \<in> set (snd (processFilesRecursively [''node_modules'']
       (\<lambda>prompt. if prompt = mkPrompt ''bad'' then None else Some ''Adds one.'') ''/w''
       (Dir [(''a.js'', File ''bad'' True True),
             (''b.js'', File ''const a = 1;'' True True),
             (''node_modules'', Dir [(''c.js'', File ''x'' True True)]),
             (''notes.txt'', File ''y'' True True)])))
   \<and> \<not> shouldIgnore [''node_modules''] ''/w/b.js''
   \<and> shouldIgnore [''node_modules''] (path_join ''/w'' ''node_modules'')
   \<and> callback [''node_modules'']
         (\<lambda>prompt. if prompt = mkPrompt ''bad'' then None else Some ''Adds one.'')
         ''/w'' ''node_modules'' (Dir [(''c.js'', File ''x'' True True)]) =
       (Dir [(''c.js'', File ''x'' True True)], [])
   \<and> \<not> endsWith ''notes.txt'' ''.js'' \<and> \<not> endsWith ''notes.txt'' ''.ts''
   \<and> ReadFile ''/w/notes.txt'' \<notin> set (snd (callback [''node_modules'']
         (\<lambda>prompt. if prompt = mkPrompt ''bad'' then None else Some ''Adds one.'')
         ''/w'' ''notes.txt'' (File ''y'' True True)))"
proof -
  let ?model = "\<lambda>prompt. if prompt = mkPrompt ''bad'' then None else Some ''Adds one.''"
  let ?tree = "Dir [(''a.js'', File ''bad'' True True),
             (''b.js'', File ''const a = 1;'' True True),
             (''node_modules'', Dir [(''c.js'', File ''x'' True True)]),
             (''notes.txt'', File ''y'' True True)]"
  have r: "ReadFile ''/w/b.js'' \<in> set (snd (processFilesRecursively [''node_modules''] ?model ''/w'' ?tree))"
    by (simp add: example_run)
  have i: "shouldIgnore [''node_modules''] (path_join ''/w'' ''node_modules'')"
    by (simp add: shouldIgnore_def startsWith_def path_join_def)
  have e: "\<not> endsWith ''notes.txt'' ''.js'' \<and> \<not> endsWith ''notes.txt'' ''.ts''"
    by (simp add: endsWith_def)
  from r i e show ?thesis
    using walker_filters [where p = "''/w/b.js''" and pats = "[''node_modules'']"
        and model = ?model and dir = "''/w''" and nd = ?tree and name = "''node_modules''"
        and child = "Dir [(''c.js'', File ''x'' True True)]"]
      walker_filters [where p = "''/w/b.js''" and pats = "[''node_modules'']"
        and model = ?model and dir = "''/w''" and nd = ?tree and name = "''notes.txt''"
        and q = "''/w/notes.txt''" and c = "''y''" and r = True and w = True]
    by blast
qed

text \<open>
  C7. A failure of the read, of the backend call or of the write ends the annotator with
  the node as it was and the error logged with the path, and the annotator returns; this
  holds of the annotator of index.js and of the one of tests/Test.js. In a directory the
  outcome of each entry is that of its own callback, whatever happens to its siblings, and
  for a file with a recognised suffix that is not ignored it is the outcome of the
  annotator.
\<close>

theorem failures_contained:
  "(readFileSync nd = Inl e \<longrightarrow>
      addDocumentation model p nd = (nd, [ReadFile p, ErrorProcessing p e]))
   \<and> (readFileSync nd = Inr c \<and> model (mkPrompt c) = None \<longrightarrow>
      addDocumentation model p nd =
        (nd, [ReadFile p, GenerateContent p (mkPrompt c), ErrorProcessing p BackendError]))
   \<and> (readFileSync nd = Inr c \<and> model (mkPrompt c) = Some R \<and> writeFileSync nd updatedContent = Inl e' \<longrightarrow>
      (\<exists>evs. addDocumentation model p nd = (nd, evs @ [ErrorProcessing p e'])))
   \<and> (addDocumentation_try model p nd = (Inl e, nd', evs) \<longrightarrow>
      addDocumentation model p nd = (nd, evs @ [ErrorProcessing p e]))
   \<and> (addDocumentation_Test_try model p nd = (Inl e, nd', evs) \<longrightarrow>
      addDocumentation_Test model p nd = (nd, evs @ [ErrorProcessing p e]))
   \<and> fst (processFilesRecursively pats model dir (Dir es)) =
        Dir (map (\<lambda>(name, child). (name, fst (callback pats model dir name child))) es)
   \<and> (\<not> shouldIgnore pats (path_join dir name) \<and> (endsWith name ''.js'' \<or> endsWith name ''.ts'') \<longrightarrow>
        callback pats model dir name (File c r w) =
          (fst (addDocumentation model (path_join dir name) (File c r w)),
           Stat (path_join dir name) # snd (addDocumentation model (path_join dir name) (File c r w))))"
proof (intro conjI impI)
  assume "readFileSync nd = Inl e"
  then show "addDocumentation model p nd = (nd, [ReadFile p, ErrorProcessing p e])"
    by (simp add: addDocumentation_def addDocumentation_try_def)
next
  assume "readFileSync nd = Inr c \<and> model (mkPrompt c) = None"
  then show "addDocumentation model p nd =
        (nd, [ReadFile p, GenerateContent p (mkPrompt c), ErrorProcessing p BackendError])"
    by (simp add: addDocumentation_def addDocumentation_try_def)
next
  assume a: "readFileSync nd = Inr c \<and> model (mkPrompt c) = Some R \<and> writeFileSync nd updatedContent = Inl e'"
  then have "\<And>text'. writeFileSync nd text' = Inl e'"
    by (cases nd) (auto simp: writeFileSync_def split: if_splits)
  with a show "\<exists>evs. addDocumentation model p nd = (nd, evs @ [ErrorProcessing p e'])"
    by (simp add: addDocumentation_def addDocumentation_try_def Let_def split: prod.splits)
next
  assume "addDocumentation_try model p nd = (Inl e, nd', evs)"
  moreover from this have "nd' = nd"
    by (auto simp: addDocumentation_try_def Let_def split: sum.splits option.splits prod.splits if_splits)
  ultimately show "addDocumentation model p nd = (nd, evs @ [ErrorProcessing p e])"
    by (simp add: addDocumentation_def)
next
  assume "addDocumentation_Test_try model p nd = (Inl e, nd', evs)"
  moreover from this have "nd' = nd"
    by (auto simp: addDocumentation_Test_try_def Let_def
        split: sum.splits option.splits prod.splits if_splits)
  ultimately show "addDocumentation_Test model p nd = (nd, evs @ [ErrorProcessing p e])"
    by (simp add: addDocumentation_Test_def)
next
  show "fst (processFilesRecursively pats model dir (Dir es)) =
        Dir (map (\<lambda>(name, child). (name, fst (callback pats model dir name child))) es)"
    by (simp add: processFilesRecursively_Dir forEach_fst)
next
  assume "\<not> shouldIgnore pats (path_join dir name) \<and> (endsWith name ''.js'' \<or> endsWith name ''.ts'')"
  then show "callback pats model dir name (File c r w) =
          (fst (addDocumentation model (path_join dir name) (File c r w)),
           Stat (path_join dir name) # snd (addDocumentation model (path_join dir name) (File c r w)))"
    by (simp add: callback_File)
qed

theorem failures_contained_witness:
  "readFileSync (File ''x'' False True) = Inl ReadError
   \<and> addDocumentation (\<lambda>prompt. if prompt = mkPrompt ''bad'' then None else Some ''Adds one.'')
        ''/w/x.js'' (File ''x'' False True) =
       (File ''x'' False True, [ReadFile ''/w/x.js'', ErrorProcessing ''/w/x.js'' ReadError])
   \<and> readFileSync (File ''bad'' True True) = Inr ''bad''
   \<and> addDocumentation (\<lambda>prompt. if prompt = mkPrompt ''bad'' then None else Some ''Adds one.'')
        ''/w/a.js'' (File ''bad'' True True) =
       (File ''bad'' True True,
        [ReadFile ''/w/a.js'', GenerateContent ''/w/a.js'' (mkPrompt ''bad''),
         ErrorProcessing ''/w/a.js'' BackendError])
   \<and> writeFileSync (File ''y'' True False) ''Adds one.'' = Inl WriteError
   \<and> (\<exists>evs. addDocumentation (\<lambda>prompt. if prompt = mkPrompt ''bad'' then None else Some ''Adds one.'')
        ''/w/y.js'' (File ''y'' True False) =
       (File ''y'' True False, evs @ [ErrorProcessing ''/w/y.js'' WriteError]))
   \<and> fst (processFilesRecursively [''node_modules'']
        (\<lambda>prompt. if prompt = mkPrompt ''bad'' then None else Some ''Adds one.'') ''/w''
        (Dir [(''a.js'', File ''bad'' True True),
              (''b.js'', File ''const a = 1;'' True True),
              (''node_modules'', Dir [(''c.js'', File ''x'' True True)]),
              (''notes.txt'', File ''y'' True True)])) =
       Dir [(''a.js'', File ''bad'' True True),
            (''b.js'', File ''Adds one.'' True True),
            (''node_modules'', Dir [(''c.js'', File ''x'' True True)]),
            (''notes.txt'', File ''y'' True True)]
   \<and> fst (callback [''node_modules'']
        (\<lambda>prompt. if prompt = mkPrompt ''bad'' then None else Some ''Adds one.'') ''/w'' ''b.js''
        (File ''const a = 1;'' True True)) = File ''Adds one.'' True True
   \<and> addDocumentation_Test (\<lambda>prompt. if prompt = mkPrompt ''bad'' then None else Some ''Adds one.'')
        ''/w/a.js'' (File ''bad'' True True) =
       (File ''bad'' True True,
        [ReadFile ''/w/a.js'', GenerateContent ''/w/a.js'' (mkPrompt ''bad''),
         ErrorProcessing ''/w/a.js'' BackendError])"
proof -
  let ?model = "\<lambda>prompt. if prompt = mkPrompt ''bad'' then None else Some ''Adds one.''"
  let ?es = "[(''a.js'', File ''bad'' True True),
              (''b.js'', File ''const a = 1;'' True True),
              (''node_modules'', Dir [(''c.js'', File ''x'' True True)]),
              (''notes.txt'', File ''y'' True True)]"
  have h1: "readFileSync (File ''x'' False True) = Inl ReadError"
    by (simp add: readFileSync_def)
  have h2: "readFileSync (File ''bad'' True True) = Inr ''bad'' \<and> ?model (mkPrompt ''bad'') = None"
    by (simp add: readFileSync_def)
  have h3: "readFileSync (File ''y'' True False) = Inr ''y'' \<and> ?model (mkPrompt ''y'') = Some ''Adds one.''
      \<and> writeFileSync (File ''y'' True False) ''Adds one.'' = Inl WriteError"
    by (simp add: readFileSync_def writeFileSync_def mkPrompt_def)
  have h4: "\<not> shouldIgnore [''node_modules''] (path_join ''/w'' ''b.js'')
      \<and> (endsWith ''b.js'' ''.js'' \<or> endsWith ''b.js'' ''.ts'')"
    by (simp add: shouldIgnore_def startsWith_def path_join_def endsWith_def)
  have h5: "addDocumentation ?model (path_join ''/w'' ''b.js'') (File ''const a = 1;'' True True) =
      (File ''Adds one.'' True True,
       [ReadFile ''/w/b.js'', GenerateContent ''/w/b.js'' (mkPrompt ''const a = 1;''),
        WarnTooShort, WriteFile ''/w/b.js'' ''Adds one.'', DocumentationAdded ''/w/b.js''])"
    by (simp add: path_join_def addDocumentation_def addDocumentation_try_def
        readFileSync_def writeFileSync_def mkPrompt_def Let_def)
  note t1 = failures_contained [where nd = "File ''x'' False True" and e = ReadError
      and model = ?model and p = "''/w/x.js''" and pats = "[''node_modules'']" and dir = "''/w''"
      and es = ?es and name = "''b.js''" and c = "''const a = 1;''" and r = True and w = True]
  note t2 = failures_contained [where nd = "File ''bad'' True True" and c = "''bad''"
      and model = ?model and p = "''/w/a.js''"]
  note t3 = failures_contained [where nd = "File ''y'' True False" and c = "''y''"
      and model = ?model and p = "''/w/y.js''" and R = "''Adds one.''"
      and updatedContent = "''Adds one.''" and e' = WriteError]
  have c1: "addDocumentation ?model ''/w/x.js'' (File ''x'' False True) =
       (File ''x'' False True, [ReadFile ''/w/x.js'', ErrorProcessing ''/w/x.js'' ReadError])"
    using t1 h1 by blast
  have c2: "addDocumentation ?model ''/w/a.js'' (File ''bad'' True True) =
       (File ''bad'' True True,
        [ReadFile ''/w/a.js'', GenerateContent ''/w/a.js'' (mkPrompt ''bad''),
         ErrorProcessing ''/w/a.js'' BackendError])"
    using t2 h2 by blast
  have c3: "\<exists>evs. addDocumentation ?model ''/w/y.js'' (File ''y'' True False) =
       (File ''y'' True False, evs @ [ErrorProcessing ''/w/y.js'' WriteError])"
    using t3 h3 by blast
  have c4: "fst (processFilesRecursively [''node_modules''] ?model ''/w'' (Dir ?es)) =
       Dir [(''a.js'', File ''bad'' True True),
            (''b.js'', File ''Adds one.'' True True),
            (''node_modules'', Dir [(''c.js'', File ''x'' True True)]),
            (''notes.txt'', File ''y'' True True)]"
    by (simp only: example_run fst_conv)
  have "callback [''node_modules''] ?model ''/w'' ''b.js'' (File ''const a = 1;'' True True) =
      (fst (addDocumentation ?model (path_join ''/w'' ''b.js'') (File ''const a = 1;'' True True)),
       Stat (path_join ''/w'' ''b.js'') #
         snd (addDocumentation ?model (path_join ''/w'' ''b.js'') (File ''const a = 1;'' True True)))"
    using t1 h4 by blast
  then have c5: "fst (callback [''node_modules''] ?model ''/w'' ''b.js''
      (File ''const a = 1;'' True True)) = File ''Adds one.'' True True"
    by (simp only: h5 fst_conv)
  have "addDocumentation_Test_try ?model ''/w/a.js'' (File ''bad'' True True) =
      (Inl BackendError, File ''bad'' True True,
       [ReadFile ''/w/a.js'', GenerateContent ''/w/a.js'' (mkPrompt ''bad'')])"
    by (simp add: addDocumentation_Test_try_def readFileSync_def)
  with t2 [where e = BackendError and nd' = "File ''bad'' True True"
      and evs = "[ReadFile ''/w/a.js'', GenerateContent ''/w/a.js'' (mkPrompt ''bad'')]"]
  have c6: "addDocumentation_Test ?model ''/w/a.js'' (File ''bad'' True True) =
       (File ''bad'' True True,
        [ReadFile ''/w/a.js'', GenerateContent ''/w/a.js'' (mkPrompt ''bad''),
         ErrorProcessing ''/w/a.js'' BackendError])"
    by simp
  from h1 h2 h3 c1 c2 c3 c4 c5 c6 show ?thesis by blast
qed

text \<open>
  C8, as the code has it. In a run over a tree with distinct names in each directory, no
  path is submitted to the backend twice and the annotator is invoked on no path twice;
  the callback runs once on each entry of a listing; an invocation makes one backend
  request when the file can be read and none when it cannot.
\<close>

theorem requests_at_most_once:
  "(wf_node nd \<longrightarrow>
      distinct (request_paths (snd (processFilesRecursively pats model dir nd)))
      \<and> distinct (invocation_paths (snd (processFilesRecursively pats model dir nd))))
   \<and> snd (forEach pats model dir es) =
        concat (map (\<lambda>(name, child). snd (callback pats model dir name child)) es)
   \<and> invocation_paths (snd (addDocumentation model p nd')) = [p]
   \<and> request_paths (snd (addDocumentation model p nd')) =
        (case readFileSync nd' of Inl e \<Rightarrow> [] | Inr c \<Rightarrow> [p])"
  using distinct_request_paths [of nd pats model dir] distinct_invocation_paths [of nd pats model dir]
    forEach_snd [of pats model dir es] addDocumentation_invocations [of model p nd']
    addDocumentation_requests [of model p nd']
  by blast

theorem requests_at_most_once_witness:
  "wf_node (Dir [(''a.js'', File ''bad'' True True),
              (''b.js'', File ''const a = 1;'' True True),
              (''node_modules'', Dir [(''c.js'', File ''x'' True True)]),
              (''notes.txt'', File ''y'' True True)])
   \<and> request_paths (snd (processFilesRecursively [''node_modules'']
        (\<lambda>prompt. if prompt = mkPrompt ''bad'' then None else Some ''Adds one.'') ''/w''
        (Dir [(''a.js'', File ''bad'' True True),
              (''b.js'', File ''const a = 1;'' True True),
              (''node_modules'', Dir [(''c.js'', File ''x'' True True)]),
              (''notes.txt'', File ''y'' True True)]))) = [''/w/a.js'', ''/w/b.js'']
   \<and> distinct (request_paths (snd (processFilesRecursively [''node_modules'']
        (\<lambda>prompt. if prompt = mkPrompt ''bad'' then None else Some ''Adds one.'') ''/w''
        (Dir [(''a.js'', File ''bad'' True True),
              (''b.js'', File ''const a = 1;'' True True),
              (''node_modules'', Dir [(''c.js'', File ''x'' True True)]),
              (''notes.txt'', File ''y'' True True)]))))"
proof -
  let ?model = "\<lambda>prompt. if prompt = mkPrompt ''bad'' then None else Some ''Adds one.''"
  let ?tree = "Dir [(''a.js'', File ''bad'' True True),
              (''b.js'', File ''const a = 1;'' True True),
              (''node_modules'', Dir [(''c.js'', File ''x'' True True)]),
              (''notes.txt'', File ''y'' True True)]"
  have wf: "wf_node ?tree" by simp
  have "request_paths (snd (processFilesRecursively [''node_modules''] ?model ''/w'' ?tree)) =
      [''/w/a.js'', ''/w/b.js'']"
    by (simp add: example_run request_paths_def)
  with wf show ?thesis
    using requests_at_most_once [where nd = ?tree and pats = "[''node_modules'']"
        and model = ?model and dir = "''/w''"]
    by blast
qed

text \<open>An invocation on a file that cannot be read makes no backend request.\<close>

theorem one_request_per_invocation_counterexample:
  "invocation_paths (snd (addDocumentation (\<lambda>prompt. Some ''Adds one.'') ''/w/a.js''
       (File ''const a = 1;'' False True))) = [''/w/a.js'']
   \<and> length (request_paths (snd (addDocumentation (\<lambda>prompt. Some ''Adds one.'') ''/w/a.js''
       (File ''const a = 1;'' False True)))) \<noteq> 1"
  by (simp add: addDocumentation_def addDocumentation_try_def readFileSync_def
      invocation_paths_def request_paths_def)

end
